theory Spec2Isabelle
  imports Main "HOL-Library.FSet" "HOL-Library.Sublist"
begin

section \<open>Entry rules of the mission order (worlds/sc2/mission\_order/entry\_rules.py)\<close>

subsection \<open>Missions and the collection state\<close>

text \<open>
  \<open>SC2Mission\<close> (module \<open>mission_tables\<close>) is used through its attributes \<open>id\<close> and
  \<open>mission_name\<close> only.
\<close>

record SC2Mission =
  id' :: int
  mission_name :: string

text \<open>
  \<open>SC2MOGenMission\<close> (module \<open>structs\<close>) is used through \<open>mission\<close> and the method
  \<open>beat_item()\<close>, whose result is kept as a field. Python compares the objects of this
  class by identity when they are members of a set; \<open>ref\<close> is that identity, so two
  missions may carry the same \<open>SC2Mission\<close>.
\<close>

record SC2MOGenMission =
  ref :: nat
  mission :: SC2Mission
  beat_item :: string

text \<open>
  \<open>CollectionState\<close> (module \<open>BaseClasses\<close>) is used through its two queries.
  \<open>has_all\<close> receives the tokens of a set of missions, in the iteration order of that
  set; the tokens are passed as a finite set.
\<close>

record CollectionState =
  has :: "string \<Rightarrow> int \<Rightarrow> bool"
  has_all :: "string fset \<Rightarrow> int \<Rightarrow> bool"

subsection \<open>Live rules\<close>

text \<open>An entry of \<open>visual_reqs\<close> of a live rule: \<open>Union[str, SC2MOGenMission]\<close>.\<close>

datatype visual_req = ReqStr string | ReqMission SC2MOGenMission

text \<open>
  The three subclasses of \<open>EntryRule\<close>. A constructor of the datatype is the object with
  its attributes; the clamping \<open>__init__\<close> methods are the functions below.
\<close>

datatype EntryRule =
    BeatMissionsEntryRule
      (missions_to_beat: "SC2MOGenMission fset")
      (visual_reqs: "visual_req list")
  | CountMissionsEntryRule
      (missions_to_count: "SC2MOGenMission fset")
      (target_amount: int)
      (visual_reqs: "visual_req list")
  | SubRuleEntryRule
      (rules_to_check: "EntryRule list")
      (target_amount: int)

definition BeatMissionsEntryRule_init ::
  "SC2MOGenMission fset \<Rightarrow> visual_req list \<Rightarrow> EntryRule" where
  "BeatMissionsEntryRule_init missions reqs = BeatMissionsEntryRule missions reqs"

definition CountMissionsEntryRule_init ::
  "SC2MOGenMission fset \<Rightarrow> int \<Rightarrow> visual_req list \<Rightarrow> EntryRule" where
  "CountMissionsEntryRule_init missions target reqs =
     (if target = - 1 \<or> target > int (fcard missions)
      then CountMissionsEntryRule missions (int (fcard missions)) reqs
      else CountMissionsEntryRule missions target reqs)"

definition SubRuleEntryRule_init :: "EntryRule list \<Rightarrow> int \<Rightarrow> EntryRule" where
  "SubRuleEntryRule_init rules target =
     (if target = - 1 \<or> target > int (length rules)
      then SubRuleEntryRule rules (int (length rules))
      else SubRuleEntryRule rules target)"

text \<open>\<open>is_fulfilled\<close>: Python's \<open>sum\<close> over booleans counts the true ones.\<close>

fun is_fulfilled :: "EntryRule \<Rightarrow> SC2MOGenMission fset \<Rightarrow> bool" where
  "is_fulfilled (BeatMissionsEntryRule missions reqs) beaten_missions =
     (missions |\<subseteq>| beaten_missions)"
| "is_fulfilled (CountMissionsEntryRule missions target reqs) beaten_missions =
     (target \<le> int (fcard (beaten_missions |\<inter>| missions)))"
| "is_fulfilled (SubRuleEntryRule rules target) beaten_missions =
     (target \<le> (\<Sum>rule\<leftarrow>rules. of_bool (is_fulfilled rule beaten_missions)))"

definition is_always_fulfilled :: "EntryRule \<Rightarrow> bool" where
  "is_always_fulfilled rule = is_fulfilled rule {||}"

text \<open>
  \<open>to_lambda\<close>: the closure is the function of the state that remains after the rule
  and the player are given.
\<close>

fun to_lambda :: "EntryRule \<Rightarrow> int \<Rightarrow> CollectionState \<Rightarrow> bool" where
  "to_lambda (BeatMissionsEntryRule missions reqs) player state =
     has_all state (beat_item |`| missions) player"
| "to_lambda (CountMissionsEntryRule missions target reqs) player state =
     (target \<le> (\<Sum>m\<in>fset missions. of_bool (has state (beat_item m) player)))"
| "to_lambda (SubRuleEntryRule rules target) player state =
     (target \<le> (\<Sum>sub_lambda\<leftarrow>map (\<lambda>rule. to_lambda rule player) rules.
                    of_bool (sub_lambda state)))"

subsection \<open>Rule data\<close>

text \<open>An entry of \<open>visual_reqs\<close> of a data rule: \<open>Union[str, int]\<close>.\<close>

datatype req_data = DataStr string | DataInt int

text \<open>
  The three dataclasses. Python checks none of the annotations \<open>Set[int]\<close>, \<open>int\<close>,
  \<open>List[Union[str, int]]\<close> when an object is built, and \<open>parse_from_dict\<close> stores the
  values of the payload as they come. So the types of \<open>mission_ids\<close>, \<open>amount\<close> and
  \<open>visual_reqs\<close> are parameters: \<open>slot_data\<close> is the dataclass with the fields of the
  annotations, as \<open>to_slot_data\<close> builds it.
\<close>

datatype ('i, 'a, 'v) RuleData =
    BeatMissionsRuleData 'i 'v
  | CountMissionsRuleData 'i 'a 'v
  | SubRuleRuleData "('i, 'a, 'v) RuleData list" 'a

type_synonym slot_data = "(int fset, int, req_data list) RuleData"

fun resolved_req :: "visual_req \<Rightarrow> req_data" where
  "resolved_req (ReqStr req) = DataStr req"
| "resolved_req (ReqMission req) = DataInt (id' (mission req))"

fun to_slot_data :: "EntryRule \<Rightarrow> slot_data" where
  "to_slot_data (BeatMissionsEntryRule missions reqs) =
     BeatMissionsRuleData ((\<lambda>m. id' (mission m)) |`| missions) (map resolved_req reqs)"
| "to_slot_data (CountMissionsEntryRule missions target reqs) =
     CountMissionsRuleData ((\<lambda>m. id' (mission m)) |`| missions) target (map resolved_req reqs)"
| "to_slot_data (SubRuleEntryRule rules target) =
     SubRuleRuleData (map to_slot_data rules) target"

fun data_is_fulfilled :: "slot_data \<Rightarrow> int fset \<Rightarrow> bool" where
  "data_is_fulfilled (BeatMissionsRuleData mission_ids reqs) beaten_missions =
     (mission_ids |\<subseteq>| beaten_missions)"
| "data_is_fulfilled (CountMissionsRuleData mission_ids amount reqs) beaten_missions =
     (amount \<le> int (fcard (beaten_missions |\<inter>| mission_ids)))"
| "data_is_fulfilled (SubRuleRuleData sub_rules amount) beaten_missions =
     (amount \<le> (\<Sum>rule\<leftarrow>sub_rules. of_bool (data_is_fulfilled rule beaten_missions)))"

definition empty :: slot_data where
  "empty = SubRuleRuleData [] 0"

text \<open>The missions a live rule evaluates: those of its leaves.\<close>

fun rule_missions :: "EntryRule \<Rightarrow> SC2MOGenMission set" where
  "rule_missions (BeatMissionsEntryRule missions reqs) = fset missions"
| "rule_missions (CountMissionsEntryRule missions target reqs) = fset missions"
| "rule_missions (SubRuleEntryRule rules target) = (\<Union>rule\<in>set rules. rule_missions rule)"

subsection \<open>Payloads and errors\<close>

text \<open>
  The generic payload: integers, strings, lists and string-keyed mappings. A mapping
  keeps its items in insertion order, as a Python \<open>dict\<close> does, and is looked up with
  \<open>map_of\<close>; the keys of a \<open>dict\<close> are distinct.
\<close>

datatype payload =
    PInt int
  | PStr string
  | PList "payload list"
  | PDict "(string \<times> payload) list"

text \<open>The exceptions the module can raise; \<open>KeyError\<close> carries the missing key.\<close>

datatype py_error = KeyError payload | TypeError | AttributeError | IndexError

text \<open>
  The results of a comprehension or of a loop whose body may raise: the first error
  in the order of evaluation, or all the values.
\<close>

fun collect :: "('e + 'a) list \<Rightarrow> 'e + 'a list" where
  "collect [] = Inr []"
| "collect (Inl e # rs) = Inl e"
| "collect (Inr x # rs) = (case collect rs of Inl e \<Rightarrow> Inl e | Inr xs \<Rightarrow> Inr (x # xs))"

subsection \<open>Tooltips\<close>

text \<open>\<open>sep.join(xs)\<close> and \<open>str(i)\<close> of Python.\<close>

fun join :: "string \<Rightarrow> string list \<Rightarrow> string" where
  "join sep [] = []"
| "join sep [x] = x"
| "join sep (x # y # ys) = x @ sep @ join sep (y # ys)"

fun str_nat :: "nat \<Rightarrow> string" where
  "str_nat n =
     (if n < 10 then [''0123456789'' ! n]
      else str_nat (n div 10) @ [''0123456789'' ! (n mod 10)])"

declare str_nat.simps [simp del]

definition str :: "int \<Rightarrow> string" where
  "str i = (if i < 0 then ''-'' @ str_nat (nat (- i)) else str_nat (nat i))"

text \<open>
  The first line of each \<open>tooltip\<close> method:
  \<open>indent = " ".join("" for _ in range(indents))\<close>.
\<close>

definition indent_str :: "int \<Rightarrow> string" where
  "indent_str indents = join '' '' (map (\<lambda>_. '''') [0..<nat indents])"

text \<open>
  \<open>missions[req].mission_name if type(req) == int else req\<close>; a missing id raises
  \<open>KeyError\<close>.
\<close>

fun req_str :: "(int \<rightharpoonup> SC2Mission) \<Rightarrow> req_data \<Rightarrow> py_error + string" where
  "req_str missions (DataInt req) =
     (case missions req of None \<Rightarrow> Inl (KeyError (PInt req)) | Some m \<Rightarrow> Inr (mission_name m))"
| "req_str missions (DataStr req) = Inr req"

text \<open>
  The three \<open>tooltip\<close> methods. In the \<open>SubRuleRuleData\<close> method \<open>self.sub_rules[0]\<close> is
  read only when the list has one element.
\<close>

fun tooltip :: "slot_data \<Rightarrow> int \<Rightarrow> (int \<rightharpoonup> SC2Mission) \<Rightarrow> py_error + string" where
  "tooltip (BeatMissionsRuleData mission_ids reqs) indents missions =
     (let indent = indent_str indents in
      if length reqs = 1 then
        (case req_str missions (reqs ! 0) of
           Inl e \<Rightarrow> Inl e
         | Inr req \<Rightarrow> Inr (''Beat '' @ req))
      else
        (case collect (map (req_str missions) reqs) of
           Inl e \<Rightarrow> Inl e
         | Inr labels \<Rightarrow>
             Inr (''Beat all of these:\<newline>'' @ indent @ ''- ''
                  @ join (''\<newline>'' @ indent @ ''- '') labels)))"
| "tooltip (CountMissionsRuleData mission_ids amount reqs) indents missions =
     (let indent = indent_str indents;
          amount_str = (if amount = int (fcard mission_ids) then ''all'' else str amount) in
      if length reqs = 1 then
        (case req_str missions (reqs ! 0) of
           Inl e \<Rightarrow> Inl e
         | Inr req \<Rightarrow>
             if amount = 1 then Inr (''Beat '' @ req)
             else Inr (''Beat '' @ amount_str @ '' missions from '' @ req))
      else
        (case collect (map (req_str missions) reqs) of
           Inl e \<Rightarrow> Inl e
         | Inr labels \<Rightarrow>
             Inr ((if amount = 1
                   then ''Beat '' @ amount_str @ '' mission from:\<newline>'' @ indent @ ''- ''
                   else ''Beat '' @ amount_str @ '' missions from:\<newline>'' @ indent @ ''- '')
                  @ join (''\<newline>'' @ indent @ ''- '') labels)))"
| "tooltip (SubRuleRuleData sub_rules amount) indents missions =
     (let indent = indent_str indents in
      if amount = int (length sub_rules) \<and> amount = 1 then
        (case sub_rules of
           rule # _ \<Rightarrow> tooltip rule indents missions
         | [] \<Rightarrow> Inl IndexError)
      else
        (let amount_str = (if amount = int (length sub_rules) then ''all'' else str amount) in
         case collect (map (\<lambda>rule. tooltip rule (indents + 2) missions) sub_rules) of
           Inl e \<Rightarrow> Inl e
         | Inr tips \<Rightarrow>
             Inr (''Fulfill '' @ amount_str @ '' of these conditions:\<newline>'' @ indent @ ''- ''
                  @ join (''\<newline>'' @ indent @ ''- '') tips)))"

text \<open>
  A block of bullets as a reader sees it: one line per label, each a line break, the
  indent, \<open>- \<close> and the label.
\<close>

definition bullets :: "string \<Rightarrow> string list \<Rightarrow> string" where
  "bullets indent labels = concat (map (\<lambda>label. ''\<newline>'' @ indent @ ''- '' @ label) labels)"

subsection \<open>Example values\<close>

text \<open>Three missions, a composite rule over them and a state that holds one token.\<close>

definition M1 :: SC2MOGenMission where
  "M1 = \<lparr>ref = 1, mission = \<lparr>id' = 1, mission_name = ''Alpha''\<rparr>, beat_item = ''Beat Alpha''\<rparr>"

definition M2 :: SC2MOGenMission where
  "M2 = \<lparr>ref = 2, mission = \<lparr>id' = 2, mission_name = ''Beta''\<rparr>, beat_item = ''Beat Beta''\<rparr>"

definition M3 :: SC2MOGenMission where
  "M3 = \<lparr>ref = 3, mission = \<lparr>id' = 3, mission_name = ''Gamma''\<rparr>, beat_item = ''Beat Gamma''\<rparr>"

definition example_rule :: EntryRule where
  "example_rule = SubRuleEntryRule_init
     [BeatMissionsEntryRule_init {|M1|} [ReqMission M1],
      CountMissionsEntryRule_init {|M2, M3|} 1 [ReqStr ''Later missions'']] 1"

definition example_state :: CollectionState where
  "example_state = \<lparr>has = (\<lambda>item player. player = 1 \<and> item = ''Beat Alpha''),
     has_all = (\<lambda>items player. player = 1 \<and> items |\<subseteq>| {|''Beat Alpha''|})\<rparr>"

subsection \<open>Parsing a payload\<close>

text \<open>
  The field values of a parsed rule are the values of the payload, unconverted.
\<close>

type_synonym payload_data = "(payload, payload, payload) RuleData"

text \<open>
  The operations of Python that \<open>parse_from_dict\<close> applies to a payload, each with
  the exception it raises on a value of the wrong kind: \<open>data[key]\<close>, iteration,
  \<open>key in data\<close> and \<open>data.items()\<close>. Iterating a mapping yields its keys and
  iterating a string its characters; \<open>in\<close> is a key test on a mapping, a membership
  test on a list and a substring test on a string.
\<close>

fun subscript :: "payload \<Rightarrow> string \<Rightarrow> py_error + payload" where
  "subscript (PDict kvs) key =
     (case map_of kvs key of None \<Rightarrow> Inl (KeyError (PStr key)) | Some v \<Rightarrow> Inr v)"
| "subscript (PList xs) key = Inl TypeError"
| "subscript (PStr s) key = Inl TypeError"
| "subscript (PInt i) key = Inl TypeError"

fun iter :: "payload \<Rightarrow> py_error + payload list" where
  "iter (PList xs) = Inr xs"
| "iter (PDict kvs) = Inr (map (\<lambda>(key, v). PStr key) kvs)"
| "iter (PStr s) = Inr (map (\<lambda>c. PStr [c]) s)"
| "iter (PInt i) = Inl TypeError"

fun contains :: "string \<Rightarrow> payload \<Rightarrow> py_error + bool" where
  "contains key (PDict kvs) = Inr (key \<in> set (map fst kvs))"
| "contains key (PList xs) = Inr (PStr key \<in> set xs)"
| "contains key (PStr s) = Inr (sublist key s)"
| "contains key (PInt i) = Inl TypeError"

fun items :: "payload \<Rightarrow> py_error + (string \<times> payload) list" where
  "items (PDict kvs) = Inr kvs"
| "items (PList xs) = Inl AttributeError"
| "items (PStr s) = Inl AttributeError"
| "items (PInt i) = Inl AttributeError"

text \<open>
  The generated \<open>__init__\<close> of the two leaf dataclasses, called with keyword
  arguments: \<open>TypeError\<close> when a field is missing or a keyword is not a field; the
  values are stored unchecked.
\<close>

definition BeatMissionsRuleData_new :: "(string \<times> payload) list \<Rightarrow> py_error + payload_data" where
  "BeatMissionsRuleData_new kwargs =
     (case (map_of kwargs ''mission_ids'', map_of kwargs ''visual_reqs'') of
        (Some mission_ids, Some reqs) \<Rightarrow>
          if list_all (\<lambda>(field, v). field \<in> {''mission_ids'', ''visual_reqs''}) kwargs
          then Inr (BeatMissionsRuleData mission_ids reqs)
          else Inl TypeError
      | _ \<Rightarrow> Inl TypeError)"

definition CountMissionsRuleData_new :: "(string \<times> payload) list \<Rightarrow> py_error + payload_data" where
  "CountMissionsRuleData_new kwargs =
     (case (map_of kwargs ''mission_ids'', map_of kwargs ''amount'', map_of kwargs ''visual_reqs'') of
        (Some mission_ids, Some amount, Some reqs) \<Rightarrow>
          if list_all (\<lambda>(field, v). field \<in> {''mission_ids'', ''amount'', ''visual_reqs''}) kwargs
          then Inr (CountMissionsRuleData mission_ids amount reqs)
          else Inl TypeError
      | _ \<Rightarrow> Inl TypeError)"

lemma size_map_of: "map_of kvs k = Some v \<Longrightarrow> size v < size (PDict kvs)"
  by (induction kvs) (auto split: if_splits)

lemma size_iter: "iter p = Inr xs \<Longrightarrow> x \<in> set xs \<Longrightarrow> size x \<le> size p"
  by (cases p) (auto simp: le_Suc_eq size_list_estimation')

lemma size_subscript: "subscript p k = Inr v \<Longrightarrow> size v < size p"
  by (cases p) (auto split: option.splits dest: size_map_of)

text \<open>
  \<open>SubRuleRuleData.parse_from_dict\<close>; \<open>parse_rule\<close> is the body of its loop, which
  yields the rule appended for one element of \<open>data["sub_rules"]\<close>.
\<close>

function parse_from_dict :: "payload \<Rightarrow> py_error + payload_data"
  and parse_rule :: "payload \<Rightarrow> py_error + payload_data" where
  "parse_from_dict data =
     (case subscript data ''amount'' of
        Inl e \<Rightarrow> Inl e
      | Inr amount \<Rightarrow>
          (case subscript data ''sub_rules'' of
             Inl e \<Rightarrow> Inl e
           | Inr rules \<Rightarrow>
               (case iter rules of
                  Inl e \<Rightarrow> Inl e
                | Inr rule_datas \<Rightarrow>
                    (case collect (map parse_rule rule_datas) of
                       Inl e \<Rightarrow> Inl e
                     | Inr sub_rules \<Rightarrow> Inr (SubRuleRuleData sub_rules amount)))))"
| "parse_rule rule_data =
     (case contains ''sub_rules'' rule_data of
        Inl e \<Rightarrow> Inl e
      | Inr has_sub_rules \<Rightarrow>
          if has_sub_rules then parse_from_dict rule_data
          else
            (case contains ''amount'' rule_data of
               Inl e \<Rightarrow> Inl e
             | Inr has_amount \<Rightarrow>
                 (case items rule_data of
                    Inl e \<Rightarrow> Inl e
                  | Inr kwargs \<Rightarrow>
                      if has_amount then CountMissionsRuleData_new kwargs
                      else BeatMissionsRuleData_new kwargs)))"
  by pat_completeness auto
termination
proof (relation "measure (\<lambda>x. case x of Inl data \<Rightarrow> 2 * size data | Inr rule_data \<Rightarrow> 2 * size rule_data + 1)",
    goal_cases)
  case 1
  show ?case by simp
next
  case (2 data amount rules rule_datas rule_data)
  then have "size rule_data < size data"
    using size_subscript [of data "''sub_rules''" rules] size_iter [of rules rule_datas rule_data]
    by simp
  then show ?case by simp
next
  case (3 rule_data has_sub_rules)
  show ?case by simp
qed

declare parse_from_dict.simps [simp del] parse_rule.simps [simp del]

text \<open>
  Modelled from the spec: the serialization of a data rule as a generic payload, which
  no function of the module performs. A \<open>SubRuleRuleData\<close> becomes a mapping with the
  fields \<open>sub_rules\<close> and \<open>amount\<close>, a leaf the mapping of its fields; a set of mission
  ids becomes a list of them, as a payload has no sets.
\<close>

fun req_payload :: "req_data \<Rightarrow> payload" where
  "req_payload (DataStr req) = PStr req"
| "req_payload (DataInt req) = PInt req"

definition ids_payload :: "int fset \<Rightarrow> payload" where
  "ids_payload mission_ids = PList (map PInt (sorted_list_of_fset mission_ids))"

definition reqs_payload :: "req_data list \<Rightarrow> payload" where
  "reqs_payload reqs = PList (map req_payload reqs)"

fun to_payload :: "slot_data \<Rightarrow> payload" where
  "to_payload (BeatMissionsRuleData mission_ids reqs) =
     PDict [(''mission_ids'', ids_payload mission_ids), (''visual_reqs'', reqs_payload reqs)]"
| "to_payload (CountMissionsRuleData mission_ids amount reqs) =
     PDict [(''mission_ids'', ids_payload mission_ids), (''amount'', PInt amount),
            (''visual_reqs'', reqs_payload reqs)]"
| "to_payload (SubRuleRuleData sub_rules amount) =
     PDict [(''sub_rules'', PList (map to_payload sub_rules)), (''amount'', PInt amount)]"

text \<open>
  The rule with the fields of the annotations that a parsed rule stands for, when its
  field values have the shape of a set of ids, of an integer and of a list of
  requirements.
\<close>

fun payload_int :: "payload \<Rightarrow> int option" where
  "payload_int (PInt i) = Some i"
| "payload_int (PStr s) = None"
| "payload_int (PList xs) = None"
| "payload_int (PDict kvs) = None"

fun payload_req :: "payload \<Rightarrow> req_data option" where
  "payload_req (PInt i) = Some (DataInt i)"
| "payload_req (PStr s) = Some (DataStr s)"
| "payload_req (PList xs) = None"
| "payload_req (PDict kvs) = None"

fun traverse :: "('a \<Rightarrow> 'b option) \<Rightarrow> 'a list \<Rightarrow> 'b list option" where
  "traverse f [] = Some []"
| "traverse f (x # xs) =
     (case f x of None \<Rightarrow> None
      | Some y \<Rightarrow> (case traverse f xs of None \<Rightarrow> None | Some ys \<Rightarrow> Some (y # ys)))"

fun payload_ids :: "payload \<Rightarrow> int fset option" where
  "payload_ids (PList xs) = map_option fset_of_list (traverse payload_int xs)"
| "payload_ids (PInt i) = None"
| "payload_ids (PStr s) = None"
| "payload_ids (PDict kvs) = None"

fun payload_reqs :: "payload \<Rightarrow> req_data list option" where
  "payload_reqs (PList xs) = traverse payload_req xs"
| "payload_reqs (PInt i) = None"
| "payload_reqs (PStr s) = None"
| "payload_reqs (PDict kvs) = None"

lemma traverse_cong [fundef_cong]:
  "xs = ys \<Longrightarrow> (\<And>x. x \<in> set ys \<Longrightarrow> f x = g x) \<Longrightarrow> traverse f xs = traverse g ys"
  by (induction ys arbitrary: xs) (auto split: option.splits)

fun typed :: "payload_data \<Rightarrow> slot_data option" where
  "typed (BeatMissionsRuleData mission_ids reqs) =
     (case (payload_ids mission_ids, payload_reqs reqs) of
        (Some ids, Some rs) \<Rightarrow> Some (BeatMissionsRuleData ids rs)
      | _ \<Rightarrow> None)"
| "typed (CountMissionsRuleData mission_ids amount reqs) =
     (case (payload_ids mission_ids, payload_int amount, payload_reqs reqs) of
        (Some ids, Some a, Some rs) \<Rightarrow> Some (CountMissionsRuleData ids a rs)
      | _ \<Rightarrow> None)"
| "typed (SubRuleRuleData sub_rules amount) =
     (case (traverse typed sub_rules, payload_int amount) of
        (Some rules, Some a) \<Rightarrow> Some (SubRuleRuleData rules a)
      | _ \<Rightarrow> None)"

text \<open>
  The leaf payloads of a payload: the mappings without a \<open>sub_rules\<close> key that are
  elements of the \<open>sub_rules\<close> list of the payload or of one of its nested mappings
  with a \<open>sub_rules\<close> key. A leaf is well formed when its keys are the fields of the
  variant that its keys select.
\<close>

inductive leaf_of :: "payload \<Rightarrow> payload \<Rightarrow> bool" where
  here: "map_of kvs ''sub_rules'' = Some (PList xs) \<Longrightarrow> PDict leaf \<in> set xs \<Longrightarrow>
     ''sub_rules'' \<notin> set (map fst leaf) \<Longrightarrow> leaf_of (PDict kvs) (PDict leaf)"
| below: "map_of kvs ''sub_rules'' = Some (PList xs) \<Longrightarrow> PDict nested \<in> set xs \<Longrightarrow>
     ''sub_rules'' \<in> set (map fst nested) \<Longrightarrow> leaf_of (PDict nested) leaf \<Longrightarrow>
     leaf_of (PDict kvs) leaf"

definition leaf_fields_ok :: "(string \<times> payload) list \<Rightarrow> bool" where
  "leaf_fields_ok leaf =
     (if ''amount'' \<in> set (map fst leaf)
      then set (map fst leaf) = {''mission_ids'', ''amount'', ''visual_reqs''}
      else set (map fst leaf) = {''mission_ids'', ''visual_reqs''})"

text \<open>The payload of scenario 5 of the specification, and two malformed payloads.\<close>

definition example_payload :: payload where
  "example_payload =
     PDict [(''amount'', PInt 1),
            (''sub_rules'', PList [PDict [(''mission_ids'', PList [PInt 5]),
                                          (''visual_reqs'', PList [PInt 5])]])]"

definition payload_without_amount :: payload where
  "payload_without_amount = PDict [(''sub_rules'', PList [])]"

definition payload_with_bad_leaf :: payload where
  "payload_with_bad_leaf =
     PDict [(''amount'', PInt 1),
            (''sub_rules'', PList [PDict [(''amount'', PInt 0), (''sub_rules'', PList [])],
                                   PDict [(''mission_ids'', PList [PInt 5])]])]"

text \<open>A payload whose \<open>sub_rules\<close> holds one element of each of the three kinds.\<close>

definition mixed_payload :: payload where
  "mixed_payload =
     PDict [(''amount'', PInt 2),
            (''sub_rules'',
               PList [PDict [(''mission_ids'', PList [PInt 5, PInt 6]), (''amount'', PInt 1),
                             (''visual_reqs'', PList [PStr ''Chapter''])],
                      PDict [(''amount'', PInt 0), (''sub_rules'', PList [])],
                      PDict [(''mission_ids'', PList [PInt 5]), (''visual_reqs'', PList [PInt 5])]])]"

text \<open>The lookup table of the three example missions.\<close>

definition example_missions :: "int \<rightharpoonup> SC2Mission" where
  "example_missions = [1 \<mapsto> mission M1, 2 \<mapsto> mission M2, 3 \<mapsto> mission M3]"

section \<open>Properties\<close>

text \<open>
  C3 (clamp invariant). A \<open>CountMissionsEntryRule\<close> or \<open>SubRuleEntryRule\<close> built over a
  collection of size N from the target \<open>-1\<close> or from a target greater than N stores
  N; built from any other target it stores that target. No operation of the module
  writes the attribute again: evaluation, compilation and conversion return their
  result and no rule.
\<close>

theorem clamp_invariant:
  "target_amount (CountMissionsEntryRule_init ms t vr) =
     (if t = - 1 \<or> int (fcard ms) < t then int (fcard ms) else t)
   \<and> missions_to_count (CountMissionsEntryRule_init ms t vr) = ms
   \<and> target_amount (SubRuleEntryRule_init rs t) =
     (if t = - 1 \<or> int (length rs) < t then int (length rs) else t)
   \<and> rules_to_check (SubRuleEntryRule_init rs t) = rs"
  by (simp add: CountMissionsEntryRule_init_def SubRuleEntryRule_init_def)

subsection \<open>Conversion and compilation\<close>

lemmas example_defs = M1_def M2_def M3_def example_rule_def example_state_def
  BeatMissionsEntryRule_init_def CountMissionsEntryRule_init_def SubRuleEntryRule_init_def

lemma fimage_fsubset_inj:
  assumes "inj_on f (fset S \<union> fset M)"
  shows "(f |`| M |\<subseteq>| f |`| S) = (M |\<subseteq>| S)"
proof
  assume h: "f |`| M |\<subseteq>| f |`| S"
  show "M |\<subseteq>| S"
  proof
    fix x assume x: "x |\<in>| M"
    then have "f x |\<in>| f |`| S" using h by auto
    then obtain y where y: "y |\<in>| S" "f x = f y" by auto
    with x assms have "x = y" by (auto dest: inj_onD)
    with y show "x |\<in>| S" by simp
  qed
next
  assume "M |\<subseteq>| S" then show "f |`| M |\<subseteq>| f |`| S" by auto
qed

lemma fcard_finter_fimage_inj:
  assumes "inj_on f (fset S \<union> fset M)"
  shows "fcard (f |`| S |\<inter>| f |`| M) = fcard (S |\<inter>| M)"
proof -
  have "f ` fset S \<inter> f ` fset M = f ` (fset S \<inter> fset M)"
    using assms by (intro inj_on_image_Int [symmetric]) auto
  moreover have "inj_on f (fset S \<inter> fset M)"
    using assms by (rule inj_on_subset) auto
  ultimately have "card (f ` fset S \<inter> f ` fset M) = card (fset S \<inter> fset M)"
    by (simp add: card_image)
  then show ?thesis by (simp add: fcard.rep_eq)
qed

lemma to_slot_data_is_fulfilled:
  "inj_on (\<lambda>m. id' (mission m)) (fset S \<union> rule_missions R) \<Longrightarrow>
   data_is_fulfilled (to_slot_data R) ((\<lambda>m. id' (mission m)) |`| S) = is_fulfilled R S"
proof (induction R)
  case (BeatMissionsEntryRule ms vr)
  then show ?case by (simp add: fimage_fsubset_inj)
next
  case (CountMissionsEntryRule ms t vr)
  then show ?case by (simp add: fcard_finter_fimage_inj)
next
  case (SubRuleEntryRule rs t)
  have "data_is_fulfilled (to_slot_data r) ((\<lambda>m. id' (mission m)) |`| S) = is_fulfilled r S"
    if "r \<in> set rs" for r
  proof (rule SubRuleEntryRule.IH [OF that])
    show "inj_on (\<lambda>m. id' (mission m)) (fset S \<union> rule_missions r)"
      using SubRuleEntryRule.prems that by (auto intro: inj_on_subset)
  qed
  then have "(\<Sum>r\<leftarrow>rs. of_bool (data_is_fulfilled (to_slot_data r) ((\<lambda>m. id' (mission m)) |`| S)))
      = (\<Sum>r\<leftarrow>rs. (of_bool (is_fulfilled r S) :: int))"
    by (intro arg_cong [where f = sum_list] map_cong) simp_all
  then show ?case
    by (simp only: to_slot_data.simps data_is_fulfilled.simps is_fulfilled.simps map_map comp_def)
qed

text \<open>
  C1 (conversion fidelity). For every live rule R, leaf or composite, and every
  completed set S: when the missions of S and of R have pairwise distinct ids, R is
  fulfilled by S exactly when its slot data is fulfilled by the ids of S.
\<close>

theorem conversion_fidelity:
  "inj_on (\<lambda>m. id' (mission m)) (fset S \<union> rule_missions R) \<Longrightarrow>
   is_fulfilled R S = data_is_fulfilled (to_slot_data R) ((\<lambda>m. id' (mission m)) |`| S)"
  by (simp add: to_slot_data_is_fulfilled)

theorem conversion_fidelity_witness:
  "inj_on (\<lambda>m. id' (mission m)) (fset {|M1|} \<union> rule_missions example_rule)
   \<and> is_fulfilled example_rule {|M1|}
   \<and> data_is_fulfilled (to_slot_data example_rule) {|1|}"
  using conversion_fidelity [of "{|M1|}" example_rule]
  by (simp add: example_defs fcard_finsert_if)

lemma sum_has_count:
  assumes "\<forall>m\<in>fset M. has st (beat_item m) p = (m |\<in>| S)"
  shows "(\<Sum>m\<in>fset M. of_bool (has st (beat_item m) p)) = int (fcard (S |\<inter>| M))"
proof -
  have "(\<Sum>m\<in>fset M. (of_bool (has st (beat_item m) p) :: int)) = (\<Sum>m\<in>fset M. of_bool (m |\<in>| S))"
    using assms by (intro sum.cong) auto
  also have "\<dots> = int (card (fset M \<inter> {x. x |\<in>| S}))"
    by (simp add: sum_of_bool_eq)
  also have "fset M \<inter> {x. x |\<in>| S} = fset (S |\<inter>| M)" by auto
  finally show ?thesis by (simp add: fcard.rep_eq)
qed

lemma to_lambda_is_fulfilled:
  assumes "\<forall>ts. has_all st ts p = (\<forall>t. t |\<in>| ts \<longrightarrow> has st t p)"
  shows "\<forall>m\<in>rule_missions R. has st (beat_item m) p = (m |\<in>| S) \<Longrightarrow>
     to_lambda R p st = is_fulfilled R S"
proof (induction R)
  case (BeatMissionsEntryRule ms vr)
  then show ?case using assms by auto
next
  case (CountMissionsEntryRule ms t vr)
  then have "\<forall>m\<in>fset ms. has st (beat_item m) p = (m |\<in>| S)" by simp
  then show ?case
    by (simp only: to_lambda.simps is_fulfilled.simps sum_has_count)
next
  case (SubRuleEntryRule rs t)
  have "to_lambda r p st = is_fulfilled r S" if "r \<in> set rs" for r
    using SubRuleEntryRule.IH [OF that] SubRuleEntryRule.prems that by auto
  then have "(\<Sum>r\<leftarrow>rs. of_bool (to_lambda r p st)) = (\<Sum>r\<leftarrow>rs. (of_bool (is_fulfilled r S) :: int))"
    by (intro arg_cong [where f = sum_list] map_cong) simp_all
  then show ?case
    by (simp only: to_lambda.simps is_fulfilled.simps map_map comp_def)
qed

text \<open>
  C2 (the compiled predicate agrees with the evaluation on sets). For every live rule
  R, player p, state st and completed set S: when \<open>has_all\<close> of st holds of a
  collection of tokens exactly when \<open>has\<close> holds of each of them, and \<open>has\<close> holds of
  the token of a mission of R exactly when that mission is in S, the predicate
  \<open>to_lambda\<close> of R for p, applied to st, is \<open>is_fulfilled\<close> of R at S.
\<close>

theorem lambda_agreement:
  "(\<forall>ts. has_all st ts p = (\<forall>t. t |\<in>| ts \<longrightarrow> has st t p)) \<Longrightarrow>
   (\<forall>m\<in>rule_missions R. has st (beat_item m) p = (m |\<in>| S)) \<Longrightarrow>
   to_lambda R p st = is_fulfilled R S"
  by (rule to_lambda_is_fulfilled)

theorem lambda_agreement_witness:
  "(\<forall>ts. has_all example_state ts 1 = (\<forall>t. t |\<in>| ts \<longrightarrow> has example_state t 1))
   \<and> rule_missions example_rule = {M1, M2, M3}
   \<and> has example_state (beat_item M1) 1 = (M1 |\<in>| {|M1|})
   \<and> has example_state (beat_item M2) 1 = (M2 |\<in>| {|M1|})
   \<and> has example_state (beat_item M3) 1 = (M3 |\<in>| {|M1|})
   \<and> to_lambda example_rule 1 example_state
   \<and> is_fulfilled example_rule {|M1|}"
proof -
  have a: "\<forall>ts. has_all example_state ts 1 = (\<forall>t. t |\<in>| ts \<longrightarrow> has example_state t 1)"
    by (auto simp: example_state_def)
  have b: "rule_missions example_rule = {M1, M2, M3}"
    by (auto simp: example_rule_def BeatMissionsEntryRule_init_def
        CountMissionsEntryRule_init_def SubRuleEntryRule_init_def)
  have c: "has example_state (beat_item M1) 1 = (M1 |\<in>| {|M1|})"
    "has example_state (beat_item M2) 1 = (M2 |\<in>| {|M1|})"
    "has example_state (beat_item M3) 1 = (M3 |\<in>| {|M1|})"
    by (simp_all add: example_defs)
  have d: "is_fulfilled example_rule {|M1|}"
    by (simp add: example_defs fcard_finsert_if)
  have "\<forall>m\<in>rule_missions example_rule. has example_state (beat_item m) 1 = (m |\<in>| {|M1|})"
    unfolding b using c by blast
  from lambda_agreement [OF a this] a b c d show ?thesis by blast
qed

subsection \<open>Monotonicity and degenerate thresholds\<close>

lemma is_fulfilled_mono: "S |\<subseteq>| T \<Longrightarrow> is_fulfilled R S \<Longrightarrow> is_fulfilled R T"
proof (induction R)
  case (BeatMissionsEntryRule ms vr)
  then show ?case by auto
next
  case (CountMissionsEntryRule ms t vr)
  have "fcard (S |\<inter>| ms) \<le> fcard (T |\<inter>| ms)"
    using CountMissionsEntryRule.prems(1) by (intro fcard_mono) auto
  with CountMissionsEntryRule show ?case by simp
next
  case (SubRuleEntryRule rs t)
  have "(\<Sum>r\<leftarrow>rs. of_bool (is_fulfilled r S)) \<le> (\<Sum>r\<leftarrow>rs. (of_bool (is_fulfilled r T) :: int))"
    using SubRuleEntryRule.IH SubRuleEntryRule.prems(1) by (intro sum_list_mono) auto
  with SubRuleEntryRule.prems show ?case by simp
qed

lemma data_is_fulfilled_mono:
  "I |\<subseteq>| J \<Longrightarrow> data_is_fulfilled D I \<Longrightarrow> data_is_fulfilled D J"
proof (induction D)
  case (BeatMissionsRuleData ids vr)
  then show ?case by auto
next
  case (CountMissionsRuleData ids a vr)
  have "fcard (I |\<inter>| ids) \<le> fcard (J |\<inter>| ids)"
    using CountMissionsRuleData.prems(1) by (intro fcard_mono) auto
  with CountMissionsRuleData show ?case by simp
next
  case (SubRuleRuleData ds a)
  have "(\<Sum>d\<leftarrow>ds. of_bool (data_is_fulfilled d I)) \<le> (\<Sum>d\<leftarrow>ds. (of_bool (data_is_fulfilled d J) :: int))"
    using SubRuleRuleData.IH SubRuleRuleData.prems(1) by (intro sum_list_mono) auto
  with SubRuleRuleData.prems show ?case by simp
qed

text \<open>
  C4 (monotonicity under set inclusion). A \<open>BeatMissions\<close> rule, live or data, is
  fulfilled by S exactly when S includes the required missions; and every rule, of
  any of the three variants, live or data, that is fulfilled by S is fulfilled by
  every superset of S.
\<close>

theorem superset_monotonicity:
  "(is_fulfilled (BeatMissionsEntryRule required vr) S \<longleftrightarrow> required |\<subseteq>| S)
   \<and> (data_is_fulfilled (BeatMissionsRuleData ids dr) I \<longleftrightarrow> ids |\<subseteq>| I)
   \<and> (S |\<subseteq>| T \<and> is_fulfilled R S \<longrightarrow> is_fulfilled R T)
   \<and> (I |\<subseteq>| J \<and> data_is_fulfilled D I \<longrightarrow> data_is_fulfilled D J)"
  using is_fulfilled_mono [of S T R] data_is_fulfilled_mono [of I J D] by simp

theorem superset_monotonicity_witness:
  "{|M1|} |\<subseteq>| {|M1, M2|} \<and> is_fulfilled example_rule {|M1|} \<and> is_fulfilled example_rule {|M1, M2|}
   \<and> {|1|} |\<subseteq>| {|1, 2|} \<and> data_is_fulfilled (to_slot_data example_rule) {|1|}
   \<and> data_is_fulfilled (to_slot_data example_rule) {|1, 2|}"
proof -
  have a: "{|M1|} |\<subseteq>| {|M1, M2|} \<and> is_fulfilled example_rule {|M1|}"
    by (simp add: example_defs fcard_finsert_if)
  have b: "{|1|} |\<subseteq>| {|1, 2|} \<and> data_is_fulfilled (to_slot_data example_rule) {|1::int|}"
    by (simp add: example_defs fcard_finsert_if)
  from superset_monotonicity [of "{||}" "[]" "{|M1|}" "{||}" "[]" "{|1|}" "{|M1, M2|}" example_rule
      "{|1, 2|}" "to_slot_data example_rule"] a b
  show ?thesis by blast
qed

lemma sum_list_of_bool_nonneg: "0 \<le> (\<Sum>x\<leftarrow>xs. (of_bool (P x) :: int))"
  by (induction xs) auto

text \<open>
  C9 (degenerate thresholds), as amended. Both clamping constructors are total. The
  stored threshold is at most 0 exactly when the collection is empty, or the supplied
  target is 0, or it is negative and not \<open>-1\<close>; and whenever it is at most 0,
  \<open>is_fulfilled\<close> holds of every completed set and \<open>is_always_fulfilled\<close> holds.
  The claim leaves out the target 0 over a collection that is not empty, which is
  stored unchanged: the counterexample.
\<close>

theorem degenerate_thresholds:
  "(target_amount (CountMissionsEntryRule_init ms t vr) \<le> 0 \<longleftrightarrow> ms = {||} \<or> (t \<le> 0 \<and> t \<noteq> - 1))
   \<and> (target_amount (CountMissionsEntryRule_init ms t vr) \<le> 0 \<longrightarrow>
        is_fulfilled (CountMissionsEntryRule_init ms t vr) S
        \<and> is_always_fulfilled (CountMissionsEntryRule_init ms t vr))
   \<and> (target_amount (SubRuleEntryRule_init rs t) \<le> 0 \<longleftrightarrow> rs = [] \<or> (t \<le> 0 \<and> t \<noteq> - 1))
   \<and> (target_amount (SubRuleEntryRule_init rs t) \<le> 0 \<longrightarrow>
        is_fulfilled (SubRuleEntryRule_init rs t) S
        \<and> is_always_fulfilled (SubRuleEntryRule_init rs t))"
proof -
  have n: "0 \<le> (\<Sum>r\<leftarrow>rs. (of_bool (is_fulfilled r X) :: int))" for X
    by (rule sum_list_of_bool_nonneg)
  have a: "target_amount (CountMissionsEntryRule_init ms t vr) \<le> 0 \<longleftrightarrow> ms = {||} \<or> (t \<le> 0 \<and> t \<noteq> - 1)"
    by (auto simp: CountMissionsEntryRule_init_def fcard_fempty)
  have b: "target_amount (SubRuleEntryRule_init rs t) \<le> 0 \<longleftrightarrow> rs = [] \<or> (t \<le> 0 \<and> t \<noteq> - 1)"
    by (auto simp: SubRuleEntryRule_init_def)
  have c: "is_fulfilled (CountMissionsEntryRule_init ms t vr) X"
    if "target_amount (CountMissionsEntryRule_init ms t vr) \<le> 0" for X
    using that by (auto simp: CountMissionsEntryRule_init_def split: if_splits)
  have d: "is_fulfilled (SubRuleEntryRule_init rs t) X"
    if "target_amount (SubRuleEntryRule_init rs t) \<le> 0" for X
    using that n [of X] by (auto simp: SubRuleEntryRule_init_def split: if_splits)
  show ?thesis using a b c d by (simp add: is_always_fulfilled_def)
qed

theorem degenerate_thresholds_counterexample:
  "\<not> (target_amount (CountMissionsEntryRule_init {|M1|} 0 []) \<le> 0
      \<longleftrightarrow> {|M1|} = {||} \<or> ((0::int) < 0 \<and> (0::int) \<noteq> - 1))"
  by (simp add: CountMissionsEntryRule_init_def)

theorem degenerate_thresholds_witness:
  "target_amount (CountMissionsEntryRule_init {|M1|} (- 5) []) = - 5
   \<and> is_fulfilled (CountMissionsEntryRule_init {|M1|} (- 5) []) {|M2|}
   \<and> is_always_fulfilled (CountMissionsEntryRule_init {|M1|} (- 5) [])
   \<and> target_amount (SubRuleEntryRule_init [] 3) = 0
   \<and> is_fulfilled (SubRuleEntryRule_init [] 3) {|M2|}
   \<and> is_always_fulfilled (SubRuleEntryRule_init [] 3)"
proof -
  have a: "target_amount (CountMissionsEntryRule_init {|M1|} (- 5) []) = - 5"
    by (simp add: CountMissionsEntryRule_init_def)
  have b: "target_amount (SubRuleEntryRule_init [] 3) = 0"
    by (simp add: SubRuleEntryRule_init_def)
  from degenerate_thresholds [of "{|M1|}" "- 5" "[]" "{|M2|}" "[]"]
    degenerate_thresholds [of "{||}" 3 "[]" "{|M2|}" "[]"] a b
  show ?thesis by simp
qed

subsection \<open>Tooltip rendering\<close>

lemma join_replicate_empty: "join sep (replicate (Suc k) []) = concat (replicate k sep)"
  by (induction k) simp_all

lemma indent_str_eq: "indent_str indents = replicate (nat (indents - 1)) (CHR '' '')"
proof (cases "nat indents")
  case 0
  then show ?thesis by (simp add: indent_str_def)
next
  case (Suc k)
  have m: "map (\<lambda>_. '''') [0..<nat indents] = replicate (Suc k) []"
    using Suc by (simp add: map_replicate_const del: replicate_Suc)
  have c: "concat (replicate k '' '') = replicate k (CHR '' '')"
    by (induction k) simp_all
  have n: "nat (indents - 1) = k" using Suc by simp
  show ?thesis
    unfolding indent_str_def m join_replicate_empty c n ..
qed

lemma join_bullets:
  "labels \<noteq> [] \<Longrightarrow>
   ''\<newline>'' @ indent @ ''- '' @ join (''\<newline>'' @ indent @ ''- '') labels = bullets indent labels"
proof (induction labels rule: induct_list012)
  case 1 then show ?case by simp
next
  case (2 x) then show ?case by (simp add: bullets_def)
next
  case (3 x y zs)
  then show ?case by (simp add: bullets_def)
qed

lemma collect_length: "collect rs = Inr xs \<Longrightarrow> length xs = length rs"
proof (induction rs arbitrary: xs)
  case Nil then show ?case by simp
next
  case (Cons r rs)
  then show ?case by (cases r) (auto split: sum.splits)
qed

lemma tooltip_Beat_many:
  assumes "length reqs \<noteq> 1" "collect (map (req_str missions) reqs) = Inr labels" "reqs \<noteq> []"
  shows "tooltip (BeatMissionsRuleData ids reqs) indents missions =
    Inr (''Beat all of these:'' @ bullets (indent_str indents) labels)"
proof -
  have "labels \<noteq> []" using collect_length [OF assms(2)] assms(3) by auto
  from join_bullets [OF this, of "indent_str indents"] assms(1,2)
  show ?thesis by (simp add: Let_def)
qed

lemma tooltip_Count_many:
  assumes "length reqs \<noteq> 1" "collect (map (req_str missions) reqs) = Inr labels" "reqs \<noteq> []"
  shows "tooltip (CountMissionsRuleData ids amount reqs) indents missions =
    Inr (''Beat '' @ (if amount = int (fcard ids) then ''all'' else str amount)
         @ (if amount = 1 then '' mission from:'' else '' missions from:'')
         @ bullets (indent_str indents) labels)"
proof -
  have "labels \<noteq> []" using collect_length [OF assms(2)] assms(3) by auto
  from join_bullets [OF this, of "indent_str indents"] assms(1,2)
  show ?thesis by (simp add: Let_def)
qed

lemma tooltip_Sub_many:
  assumes "\<not> (amount = int (length sub_rules) \<and> amount = 1)"
    "collect (map (\<lambda>rule. tooltip rule (indents + 2) missions) sub_rules) = Inr tips"
    "sub_rules \<noteq> []"
  shows "tooltip (SubRuleRuleData sub_rules amount) indents missions =
    Inr (''Fulfill '' @ (if amount = int (length sub_rules) then ''all'' else str amount)
         @ '' of these conditions:'' @ bullets (indent_str indents) tips)"
proof -
  have "tips \<noteq> []" using collect_length [OF assms(2)] assms(3) by auto
  from join_bullets [OF this, of "indent_str indents"] assms(1,2)
  show ?thesis by (auto simp: Let_def)
qed

lemma tooltip_Beat_single:
  "req_str missions req = Inr label \<Longrightarrow>
   tooltip (BeatMissionsRuleData ids [req]) indents missions = Inr (''Beat '' @ label)"
  by (simp add: Let_def)

text \<open>
  C7 (text of the \<open>BeatMissionsRuleData\<close> tooltip), as amended. One requirement that
  resolves to a label renders as \<open>Beat\<close> and the label. Two or more requirements
  that all resolve render as \<open>Beat all of these:\<close> followed by one bullet per
  requirement, each a line break, the indent string of the level, \<open>- \<close> and the
  label. For the labels Alpha and Beta the text at level \<open>indents\<close> has
  \<open>max (indents - 1) 0\<close> spaces before each bullet; it is the text with bullets
  indented by two spaces exactly at level 3. The claim gives the two-space text for
  any level: the counterexample is level 2, where each bullet has one space.
\<close>

theorem beat_tooltip_text:
  "(req_str missions req = Inr label \<longrightarrow>
      tooltip (BeatMissionsRuleData ids [req]) indents missions = Inr (''Beat '' @ label))
   \<and> (2 \<le> length reqs \<and> collect (map (req_str missions) reqs) = Inr labels \<longrightarrow>
      tooltip (BeatMissionsRuleData ids reqs) indents missions =
        Inr (''Beat all of these:'' @ bullets (indent_str indents) labels))
   \<and> (collect (map (req_str missions) [r1, r2]) = Inr [''Alpha'', ''Beta''] \<longrightarrow>
      tooltip (BeatMissionsRuleData ids [r1, r2]) indents missions =
        Inr (''Beat all of these:\<newline>'' @ replicate (nat (indents - 1)) (CHR '' '') @ ''- Alpha\<newline>''
             @ replicate (nat (indents - 1)) (CHR '' '') @ ''- Beta'')
      \<and> (tooltip (BeatMissionsRuleData ids [r1, r2]) indents missions =
           Inr ''Beat all of these:\<newline>  - Alpha\<newline>  - Beta'' \<longleftrightarrow> indents = 3))"
proof -
  have a: "tooltip (BeatMissionsRuleData ids reqs) indents missions =
        Inr (''Beat all of these:'' @ bullets (indent_str indents) labels)"
    if "2 \<le> length reqs" "collect (map (req_str missions) reqs) = Inr labels"
    using that by (intro tooltip_Beat_many) auto
  have b: "tooltip (BeatMissionsRuleData ids [r1, r2]) indents missions =
        Inr (''Beat all of these:\<newline>'' @ replicate (nat (indents - 1)) (CHR '' '') @ ''- Alpha\<newline>''
             @ replicate (nat (indents - 1)) (CHR '' '') @ ''- Beta'')"
    if "collect (map (req_str missions) [r1, r2]) = Inr [''Alpha'', ''Beta'']"
    using tooltip_Beat_many [of "[r1, r2]" missions "[''Alpha'', ''Beta'']" ids indents] that
    by (simp add: bullets_def indent_str_eq)
  have c: "(replicate n (CHR '' '') @ ''- Alpha\<newline>'' @ replicate n (CHR '' '') @ ''- Beta''
      = ''  - Alpha\<newline>  - Beta'') = (n = 2)" for n
  proof
    assume h: "replicate n (CHR '' '') @ ''- Alpha\<newline>'' @ replicate n (CHR '' '') @ ''- Beta''
      = ''  - Alpha\<newline>  - Beta''"
    then have "length (replicate n (CHR '' '') @ ''- Alpha\<newline>'' @ replicate n (CHR '' '') @ ''- Beta'')
      = length ''  - Alpha\<newline>  - Beta''" by (rule arg_cong)
    then show "n = 2" by simp
  next
    assume "n = 2" then show "replicate n (CHR '' '') @ ''- Alpha\<newline>'' @ replicate n (CHR '' '') @ ''- Beta''
      = ''  - Alpha\<newline>  - Beta''" by (simp add: numeral_2_eq_2)
  qed
  have d: "(nat (indents - 1) = 2) = (indents = 3)" by auto
  show ?thesis using tooltip_Beat_single a b c [of "nat (indents - 1)"] d by auto
qed

theorem beat_tooltip_text_witness:
  "req_str example_missions (DataInt 1) = Inr ''Alpha''
   \<and> tooltip (BeatMissionsRuleData {|1|} [DataInt 1]) 0 example_missions = Inr ''Beat Alpha''
   \<and> collect (map (req_str example_missions) [DataInt 1, DataInt 2]) = Inr [''Alpha'', ''Beta'']
   \<and> tooltip (BeatMissionsRuleData {|1, 2|} [DataInt 1, DataInt 2]) 3 example_missions =
       Inr ''Beat all of these:\<newline>  - Alpha\<newline>  - Beta''"
proof -
  have a: "req_str example_missions (DataInt 1) = Inr ''Alpha''"
    by (simp add: example_missions_def M1_def)
  have b: "collect (map (req_str example_missions) [DataInt 1, DataInt 2]) = Inr [''Alpha'', ''Beta'']"
    by (simp add: example_missions_def M1_def M2_def)
  have c: "tooltip (BeatMissionsRuleData {|1|} [DataInt 1]) 0 example_missions = Inr (''Beat '' @ ''Alpha'')"
    using beat_tooltip_text [of example_missions "DataInt 1" "''Alpha''" "{|1|}" 0
      "[DataInt 1, DataInt 2]" "[''Alpha'', ''Beta'']" "DataInt 1" "DataInt 2"] a
    by blast
  have d: "tooltip (BeatMissionsRuleData {|1, 2|} [DataInt 1, DataInt 2]) 3 example_missions =
       Inr ''Beat all of these:\<newline>  - Alpha\<newline>  - Beta''"
    using beat_tooltip_text [of example_missions "DataInt 1" "''Alpha''" "{|1, 2|}" 3
      "[DataInt 1, DataInt 2]" "[''Alpha'', ''Beta'']" "DataInt 1" "DataInt 2"] b
    by blast
  from a b c d show ?thesis by simp
qed

theorem beat_tooltip_text_counterexample:
  "collect (map (req_str example_missions) [DataInt 1, DataInt 2]) = Inr [''Alpha'', ''Beta'']
   \<and> tooltip (BeatMissionsRuleData {|1, 2|} [DataInt 1, DataInt 2]) 2 example_missions
       = Inr ''Beat all of these:\<newline> - Alpha\<newline> - Beta''
   \<and> tooltip (BeatMissionsRuleData {|1, 2|} [DataInt 1, DataInt 2]) 2 example_missions
       \<noteq> Inr ''Beat all of these:\<newline>  - Alpha\<newline>  - Beta''"
  by (simp add: example_missions_def M1_def M2_def Let_def indent_str_eq numeral_2_eq_2)

lemma indent_str_max: "indent_str indents = replicate (nat (max (indents - 1) 0)) (CHR '' '')"
  by (simp add: indent_str_eq max_def)

text \<open>
  C10 (the indent string is one space short of the level). The indent prefix of every
  \<open>tooltip\<close> method is \<open>max (indents - 1) 0\<close> spaces: from level 1 on it has
  \<open>indents - 1\<close> spaces, at the levels 0 and 1 it is empty, and from level 1 on
  the prefix of level \<open>indents + 2\<close>, at which \<open>SubRuleRuleData\<close> renders its
  children, has two more spaces than that of level \<open>indents\<close> (at level 0 the
  children gain one space only). The bullets of all three tooltips carry exactly this
  prefix.
\<close>

theorem indent_one_short:
  "indent_str indents = replicate (nat (max (indents - 1) 0)) (CHR '' '')
   \<and> (1 \<le> indents \<longrightarrow>
        int (length (indent_str indents)) = indents - 1
        \<and> indent_str (indents + 2) = indent_str indents @ ''  '')
   \<and> indent_str 0 = [] \<and> indent_str 1 = [] \<and> indent_str 2 = '' ''
   \<and> (2 \<le> length reqs \<and> collect (map (req_str missions) reqs) = Inr labels \<longrightarrow>
        tooltip (BeatMissionsRuleData ids reqs) indents missions =
          Inr (''Beat all of these:''
               @ bullets (replicate (nat (max (indents - 1) 0)) (CHR '' '')) labels)
        \<and> tooltip (CountMissionsRuleData ids amount reqs) indents missions =
          Inr (''Beat '' @ (if amount = int (fcard ids) then ''all'' else str amount)
               @ (if amount = 1 then '' mission from:'' else '' missions from:'')
               @ bullets (replicate (nat (max (indents - 1) 0)) (CHR '' '')) labels))
   \<and> (sub_rules \<noteq> [] \<and> \<not> (amount = int (length sub_rules) \<and> amount = 1)
        \<and> collect (map (\<lambda>rule. tooltip rule (indents + 2) missions) sub_rules) = Inr tips \<longrightarrow>
        tooltip (SubRuleRuleData sub_rules amount) indents missions =
          Inr (''Fulfill '' @ (if amount = int (length sub_rules) then ''all'' else str amount)
               @ '' of these conditions:''
               @ bullets (replicate (nat (max (indents - 1) 0)) (CHR '' '')) tips))"
proof -
  have a: "int (length (indent_str indents)) = indents - 1
      \<and> indent_str (indents + 2) = indent_str indents @ ''  ''" if "1 \<le> indents"
  proof -
    have "nat (indents + 2 - 1) = nat (indents - 1) + 2" using that by simp
    then have "indent_str (indents + 2) = indent_str indents @ replicate 2 (CHR '' '')"
      by (simp only: indent_str_eq replicate_add)
    then show ?thesis using that by (simp add: indent_str_eq numeral_2_eq_2)
  qed
  have b: "indent_str 0 = [] \<and> indent_str 1 = [] \<and> indent_str 2 = '' ''"
    by (simp add: indent_str_eq)
  have c: "tooltip (BeatMissionsRuleData ids reqs) indents missions =
          Inr (''Beat all of these:''
               @ bullets (replicate (nat (max (indents - 1) 0)) (CHR '' '')) labels)"
    if "2 \<le> length reqs" "collect (map (req_str missions) reqs) = Inr labels"
  proof -
    have p: "length reqs \<noteq> 1" "reqs \<noteq> []" using that(1) by auto
    show ?thesis
      using tooltip_Beat_many [OF p(1) that(2) p(2), of ids indents]
      by (simp only: indent_str_max)
  qed
  have d: "tooltip (CountMissionsRuleData ids amount reqs) indents missions =
          Inr (''Beat '' @ (if amount = int (fcard ids) then ''all'' else str amount)
               @ (if amount = 1 then '' mission from:'' else '' missions from:'')
               @ bullets (replicate (nat (max (indents - 1) 0)) (CHR '' '')) labels)"
    if "2 \<le> length reqs" "collect (map (req_str missions) reqs) = Inr labels"
  proof -
    have p: "length reqs \<noteq> 1" "reqs \<noteq> []" using that(1) by auto
    show ?thesis
      using tooltip_Count_many [OF p(1) that(2) p(2), of ids amount indents]
      by (simp only: indent_str_max)
  qed
  have e: "tooltip (SubRuleRuleData sub_rules amount) indents missions =
          Inr (''Fulfill '' @ (if amount = int (length sub_rules) then ''all'' else str amount)
               @ '' of these conditions:''
               @ bullets (replicate (nat (max (indents - 1) 0)) (CHR '' '')) tips)"
    if "sub_rules \<noteq> []" "\<not> (amount = int (length sub_rules) \<and> amount = 1)"
      "collect (map (\<lambda>rule. tooltip rule (indents + 2) missions) sub_rules) = Inr tips"
    using tooltip_Sub_many [OF that(2) that(3) that(1)]
    by (simp only: indent_str_max)
  from indent_str_max [of indents] a b c d e show ?thesis by blast
qed

theorem indent_one_short_witness:
  "(1::int) \<le> 1
   \<and> indent_str 1 = [] \<and> indent_str (1 + 2) = ''  ''
   \<and> 2 \<le> length [DataInt 1, DataInt 2]
   \<and> collect (map (req_str example_missions) [DataInt 1, DataInt 2]) = Inr [''Alpha'', ''Beta'']
   \<and> tooltip (BeatMissionsRuleData {|1, 2|} [DataInt 1, DataInt 2]) 1 example_missions =
       Inr ''Beat all of these:\<newline>- Alpha\<newline>- Beta''
   \<and> tooltip (CountMissionsRuleData {|1, 2|} 2 [DataInt 1, DataInt 2]) 1 example_missions =
       Inr ''Beat all missions from:\<newline>- Alpha\<newline>- Beta''
   \<and> collect (map (\<lambda>rule. tooltip rule (1 + 2) example_missions)
        [BeatMissionsRuleData {|1, 2|} [DataInt 1, DataInt 2], BeatMissionsRuleData {|3|} [DataInt 3]])
       = Inr [''Beat all of these:\<newline>  - Alpha\<newline>  - Beta'', ''Beat Gamma'']
   \<and> tooltip (SubRuleRuleData
        [BeatMissionsRuleData {|1, 2|} [DataInt 1, DataInt 2], BeatMissionsRuleData {|3|} [DataInt 3]] 2)
        1 example_missions =
       Inr ''Fulfill all of these conditions:\<newline>- Beat all of these:\<newline>  - Alpha\<newline>  - Beta\<newline>- Beat Gamma''"
proof -
  have h1: "2 \<le> length [DataInt 1, DataInt 2]" by simp
  have h2: "collect (map (req_str example_missions) [DataInt 1, DataInt 2]) = Inr [''Alpha'', ''Beta'']"
    by (simp add: example_missions_def M1_def M2_def)
  have h3: "collect (map (\<lambda>rule. tooltip rule (1 + 2) example_missions)
        [BeatMissionsRuleData {|1, 2|} [DataInt 1, DataInt 2], BeatMissionsRuleData {|3|} [DataInt 3]])
       = Inr [''Beat all of these:\<newline>  - Alpha\<newline>  - Beta'', ''Beat Gamma'']"
    by (simp add: example_missions_def M1_def M2_def M3_def Let_def indent_str_eq numeral_2_eq_2)
  have h4: "([BeatMissionsRuleData {|1, 2|} [DataInt 1, DataInt 2], BeatMissionsRuleData {|3|} [DataInt 3]]
      :: slot_data list) \<noteq> []"
    by simp
  have h5: "\<not> ((2::int) = int (length ([BeatMissionsRuleData {|1, 2|} [DataInt 1, DataInt 2],
           BeatMissionsRuleData {|3|} [DataInt 3]] :: slot_data list)) \<and> (2::int) = 1)"
    by simp
  note t = indent_one_short [of 1 "[DataInt 1, DataInt 2]" example_missions "[''Alpha'', ''Beta'']"
      "{|1, 2|}" 2
      "[BeatMissionsRuleData {|1, 2|} [DataInt 1, DataInt 2], BeatMissionsRuleData {|3|} [DataInt 3]]"
      "[''Beat all of these:\<newline>  - Alpha\<newline>  - Beta'', ''Beat Gamma'']"]
  have i: "indent_str 1 = [] \<and> indent_str (1 + 2) = ''  ''"
    using t by (simp del: tooltip.simps)
  have "tooltip (BeatMissionsRuleData {|1, 2|} [DataInt 1, DataInt 2]) 1 example_missions =
      Inr (''Beat all of these:'' @ bullets (replicate (nat (max (1 - 1) 0)) (CHR '' '')) [''Alpha'', ''Beta''])"
    using t h1 h2 by blast
  then have b: "tooltip (BeatMissionsRuleData {|1, 2|} [DataInt 1, DataInt 2]) 1 example_missions =
       Inr ''Beat all of these:\<newline>- Alpha\<newline>- Beta''"
    by (simp add: bullets_def del: tooltip.simps)
  have "tooltip (CountMissionsRuleData {|1, 2|} 2 [DataInt 1, DataInt 2]) 1 example_missions =
          Inr (''Beat '' @ (if (2::int) = int (fcard {|1, 2::int|}) then ''all'' else str 2)
               @ (if (2::int) = 1 then '' mission from:'' else '' missions from:'')
               @ bullets (replicate (nat (max (1 - 1) 0)) (CHR '' '')) [''Alpha'', ''Beta''])"
    using t h1 h2 by blast
  then have c: "tooltip (CountMissionsRuleData {|1, 2|} 2 [DataInt 1, DataInt 2]) 1 example_missions =
       Inr ''Beat all missions from:\<newline>- Alpha\<newline>- Beta''"
    by (simp add: bullets_def fcard_finsert_if del: tooltip.simps)
  have "tooltip (SubRuleRuleData
        [BeatMissionsRuleData {|1, 2|} [DataInt 1, DataInt 2], BeatMissionsRuleData {|3|} [DataInt 3]] 2)
        1 example_missions =
          Inr (''Fulfill '' @ (if (2::int) = int (length ([BeatMissionsRuleData {|1, 2|} [DataInt 1, DataInt 2],
                 BeatMissionsRuleData {|3|} [DataInt 3]] :: slot_data list)) then ''all'' else str 2)
               @ '' of these conditions:''
               @ bullets (replicate (nat (max (1 - 1) 0)) (CHR '' ''))
                  [''Beat all of these:\<newline>  - Alpha\<newline>  - Beta'', ''Beat Gamma''])"
    by (rule t [THEN conjunct2, THEN conjunct2, THEN conjunct2, THEN conjunct2, THEN conjunct2,
        THEN conjunct2, THEN mp, OF conjI [OF h4 conjI [OF h5 h3]]])
  then have d: "tooltip (SubRuleRuleData
        [BeatMissionsRuleData {|1, 2|} [DataInt 1, DataInt 2], BeatMissionsRuleData {|3|} [DataInt 3]] 2)
        1 example_missions =
       Inr ''Fulfill all of these conditions:\<newline>- Beat all of these:\<newline>  - Alpha\<newline>  - Beta\<newline>- Beat Gamma''"
    by (simp add: bullets_def del: tooltip.simps)
  from h1 h2 h3 i b c d show ?thesis by (simp del: tooltip.simps)
qed

subsection \<open>Parsing\<close>

lemma collect_map_Inr:
  "(\<And>x. x \<in> set xs \<Longrightarrow> f x = Inr (g x)) \<Longrightarrow> collect (map f xs) = Inr (map g xs)"
  by (induction xs) simp_all

lemma parse_to_payload:
  "parse_rule (to_payload d) = Inr (map_RuleData ids_payload PInt reqs_payload d)"
proof (induction d)
  case (BeatMissionsRuleData ids reqs)
  show ?case by (simp add: parse_rule.simps BeatMissionsRuleData_new_def)
next
  case (CountMissionsRuleData ids amount reqs)
  show ?case by (simp add: parse_rule.simps CountMissionsRuleData_new_def)
next
  case (SubRuleRuleData ds amount)
  have "collect (map parse_rule (map to_payload ds))
      = Inr (map (map_RuleData ids_payload PInt reqs_payload) ds)"
    unfolding map_map comp_def
    by (rule collect_map_Inr) (rule SubRuleRuleData.IH)
  then show ?case by (simp add: parse_rule.simps parse_from_dict.simps)
qed

lemma parse_from_dict_to_payload:
  "parse_from_dict (to_payload (SubRuleRuleData ds amount))
   = Inr (map_RuleData ids_payload PInt reqs_payload (SubRuleRuleData ds amount))"
  using parse_to_payload [of "SubRuleRuleData ds amount"]
  by (simp add: parse_rule.simps)

lemma traverse_map_Some:
  "(\<And>x. x \<in> set xs \<Longrightarrow> f (g x) = Some x) \<Longrightarrow> traverse f (map g xs) = Some xs"
  by (induction xs) simp_all

lemma payload_ids_ids_payload: "payload_ids (ids_payload ids) = Some ids"
proof -
  have "traverse payload_int (map PInt (sorted_list_of_fset ids)) = Some (sorted_list_of_fset ids)"
    by (rule traverse_map_Some) simp
  then show ?thesis by (simp add: ids_payload_def)
qed

lemma payload_reqs_reqs_payload: "payload_reqs (reqs_payload reqs) = Some reqs"
proof -
  have "payload_req (req_payload r) = Some r" for r by (cases r) simp_all
  then have "traverse payload_req (map req_payload reqs) = Some reqs"
    by (intro traverse_map_Some)
  then show ?thesis by (simp add: reqs_payload_def)
qed

lemma typed_map_RuleData:
  "typed (map_RuleData ids_payload PInt reqs_payload d) = Some d"
proof (induction d)
  case (BeatMissionsRuleData ids reqs)
  show ?case by (simp add: payload_ids_ids_payload payload_reqs_reqs_payload)
next
  case (CountMissionsRuleData ids amount reqs)
  show ?case by (simp add: payload_ids_ids_payload payload_reqs_reqs_payload)
next
  case (SubRuleRuleData ds amount)
  have "traverse typed (map (map_RuleData ids_payload PInt reqs_payload) ds) = Some ds"
    by (rule traverse_map_Some) (rule SubRuleRuleData.IH)
  then show ?case by simp
qed

text \<open>
  C5 (round trip of \<open>SubRuleRuleData\<close>). For every \<open>SubRuleRuleData\<close> value, parsing
  its serialization succeeds and yields the tree of the same shape, with the children
  in the same order, in which every amount is the payload integer of the original
  amount, every list of visual requirements the payload list of the original entries
  and every \<open>mission_ids\<close> the payload list of the original ids: read back with the
  types of the annotations, the parsed tree is the original value.
\<close>

theorem sub_rule_round_trip:
  "parse_from_dict (to_payload (SubRuleRuleData sub_rules amount))
     = Inr (map_RuleData ids_payload PInt reqs_payload (SubRuleRuleData sub_rules amount))
   \<and> typed (map_RuleData ids_payload PInt reqs_payload (SubRuleRuleData sub_rules amount))
     = Some (SubRuleRuleData sub_rules amount)"
  by (simp only: parse_from_dict_to_payload typed_map_RuleData)

lemma parse_rule_PDict:
  "parse_rule (PDict kvs) =
     (if ''sub_rules'' \<in> set (map fst kvs) then parse_from_dict (PDict kvs)
      else if ''amount'' \<in> set (map fst kvs) then CountMissionsRuleData_new kvs
      else BeatMissionsRuleData_new kvs)"
  by (simp add: parse_rule.simps)

lemma parse_from_dict_iff:
  "parse_from_dict (PDict kvs) = Inr r \<longleftrightarrow>
     (\<exists>amount rules rule_datas sub_rules.
        map_of kvs ''amount'' = Some amount \<and> map_of kvs ''sub_rules'' = Some rules
        \<and> iter rules = Inr rule_datas \<and> collect (map parse_rule rule_datas) = Inr sub_rules
        \<and> r = SubRuleRuleData sub_rules amount)"
  by (auto simp: parse_from_dict.simps split: sum.splits option.splits)

lemma list_all_fields: "list_all (\<lambda>(field, v). field \<in> F) kvs \<longleftrightarrow> set (map fst kvs) \<subseteq> F"
  by (induction kvs) auto

lemma Count_new_iff:
  "CountMissionsRuleData_new kvs = Inr r \<longleftrightarrow>
   (\<exists>i a v. r = CountMissionsRuleData i a v \<and> map_of kvs ''mission_ids'' = Some i
     \<and> map_of kvs ''amount'' = Some a \<and> map_of kvs ''visual_reqs'' = Some v
     \<and> set (map fst kvs) \<subseteq> {''mission_ids'', ''amount'', ''visual_reqs''})"
  unfolding CountMissionsRuleData_new_def list_all_fields
  by (auto split: option.splits if_splits)

lemma Beat_new_iff:
  "BeatMissionsRuleData_new kvs = Inr r \<longleftrightarrow>
   (\<exists>i v. r = BeatMissionsRuleData i v \<and> map_of kvs ''mission_ids'' = Some i
     \<and> map_of kvs ''visual_reqs'' = Some v
     \<and> set (map fst kvs) \<subseteq> {''mission_ids'', ''visual_reqs''})"
  unfolding BeatMissionsRuleData_new_def list_all_fields
  by (auto split: option.splits if_splits)

lemma parse_mixed_payload:
  "parse_from_dict mixed_payload =
        Inr (SubRuleRuleData
               [CountMissionsRuleData (PList [PInt 5, PInt 6]) (PInt 1) (PList [PStr ''Chapter'']),
                SubRuleRuleData [] (PInt 0),
                BeatMissionsRuleData (PList [PInt 5]) (PList [PInt 5])] (PInt 2))"
  by (simp add: mixed_payload_def parse_from_dict.simps parse_rule.simps
        BeatMissionsRuleData_new_def CountMissionsRuleData_new_def)

text \<open>
  C6 (structural dispatch of the parse). \<open>parse_from_dict\<close> of a mapping succeeds
  exactly when the mapping has the keys \<open>amount\<close> and \<open>sub_rules\<close> and every element
  of \<open>sub_rules\<close> parses; the result is then the \<open>SubRuleRuleData\<close> with the amount of
  the payload whose children are the parsed elements in order. An element with a
  \<open>sub_rules\<close> key is parsed by \<open>parse_from_dict\<close> itself; otherwise one with an
  \<open>amount\<close> key is built as a \<open>CountMissionsRuleData\<close>, and any other as a
  \<open>BeatMissionsRuleData\<close>; the construction succeeds exactly when the keys of the
  element are the fields of that class, and the fields of the result are the values
  of the payload as they are. The payload of scenario 5 parses to a \<open>SubRuleRuleData\<close>
  of amount 1 with one \<open>BeatMissionsRuleData\<close> child whose mission ids are those of
  the list \<open>[5]\<close>, and a payload with one element of each kind parses to a
  \<open>CountMissionsRuleData\<close>, a \<open>SubRuleRuleData\<close> and a \<open>BeatMissionsRuleData\<close> child.
\<close>

theorem parse_dispatch:
  "(parse_from_dict (PDict kvs) = Inr r \<longleftrightarrow>
      (\<exists>amount rules rule_datas sub_rules.
         map_of kvs ''amount'' = Some amount \<and> map_of kvs ''sub_rules'' = Some rules
         \<and> iter rules = Inr rule_datas \<and> collect (map parse_rule rule_datas) = Inr sub_rules
         \<and> r = SubRuleRuleData sub_rules amount))
   \<and> (''sub_rules'' \<in> set (map fst nested) \<longrightarrow>
        parse_rule (PDict nested) = parse_from_dict (PDict nested))
   \<and> (''sub_rules'' \<notin> set (map fst nested) \<and> ''amount'' \<in> set (map fst nested) \<longrightarrow>
        parse_rule (PDict nested) = CountMissionsRuleData_new nested
        \<and> (parse_rule (PDict nested) = Inr rule \<longleftrightarrow>
             (\<exists>i a v. rule = CountMissionsRuleData i a v \<and> map_of nested ''mission_ids'' = Some i
                \<and> map_of nested ''amount'' = Some a \<and> map_of nested ''visual_reqs'' = Some v
                \<and> set (map fst nested) \<subseteq> {''mission_ids'', ''amount'', ''visual_reqs''})))
   \<and> (''sub_rules'' \<notin> set (map fst nested) \<and> ''amount'' \<notin> set (map fst nested) \<longrightarrow>
        parse_rule (PDict nested) = BeatMissionsRuleData_new nested
        \<and> (parse_rule (PDict nested) = Inr rule \<longleftrightarrow>
             (\<exists>i v. rule = BeatMissionsRuleData i v \<and> map_of nested ''mission_ids'' = Some i
                \<and> map_of nested ''visual_reqs'' = Some v
                \<and> set (map fst nested) \<subseteq> {''mission_ids'', ''visual_reqs''})))
   \<and> parse_from_dict example_payload =
        Inr (SubRuleRuleData [BeatMissionsRuleData (PList [PInt 5]) (PList [PInt 5])] (PInt 1))
   \<and> typed (SubRuleRuleData [BeatMissionsRuleData (PList [PInt 5]) (PList [PInt 5])] (PInt 1)) =
        Some (SubRuleRuleData [BeatMissionsRuleData {|5|} [DataInt 5]] 1)
   \<and> parse_from_dict mixed_payload =
        Inr (SubRuleRuleData
               [CountMissionsRuleData (PList [PInt 5, PInt 6]) (PInt 1) (PList [PStr ''Chapter'']),
                SubRuleRuleData [] (PInt 0),
                BeatMissionsRuleData (PList [PInt 5]) (PList [PInt 5])] (PInt 2))"
proof -
  have e: "parse_from_dict example_payload =
        Inr (SubRuleRuleData [BeatMissionsRuleData (PList [PInt 5]) (PList [PInt 5])] (PInt 1))"
    by (simp add: example_payload_def parse_from_dict.simps parse_rule.simps
        BeatMissionsRuleData_new_def)
  have t: "typed (SubRuleRuleData [BeatMissionsRuleData (PList [PInt 5]) (PList [PInt 5])] (PInt 1)) =
        Some (SubRuleRuleData [BeatMissionsRuleData {|5|} [DataInt 5]] 1)"
    by simp
  have c: "''sub_rules'' \<notin> set (map fst nested) \<and> ''amount'' \<in> set (map fst nested) \<longrightarrow>
        parse_rule (PDict nested) = CountMissionsRuleData_new nested
        \<and> (parse_rule (PDict nested) = Inr rule \<longleftrightarrow>
             (\<exists>i a v. rule = CountMissionsRuleData i a v \<and> map_of nested ''mission_ids'' = Some i
                \<and> map_of nested ''amount'' = Some a \<and> map_of nested ''visual_reqs'' = Some v
                \<and> set (map fst nested) \<subseteq> {''mission_ids'', ''amount'', ''visual_reqs''}))"
  proof (intro impI conjI)
    assume "''sub_rules'' \<notin> set (map fst nested) \<and> ''amount'' \<in> set (map fst nested)"
    then show p: "parse_rule (PDict nested) = CountMissionsRuleData_new nested"
      by (simp add: parse_rule_PDict)
    show "parse_rule (PDict nested) = Inr rule \<longleftrightarrow>
             (\<exists>i a v. rule = CountMissionsRuleData i a v \<and> map_of nested ''mission_ids'' = Some i
                \<and> map_of nested ''amount'' = Some a \<and> map_of nested ''visual_reqs'' = Some v
                \<and> set (map fst nested) \<subseteq> {''mission_ids'', ''amount'', ''visual_reqs''})"
      unfolding p by (rule Count_new_iff)
  qed
  have b: "''sub_rules'' \<notin> set (map fst nested) \<and> ''amount'' \<notin> set (map fst nested) \<longrightarrow>
        parse_rule (PDict nested) = BeatMissionsRuleData_new nested
        \<and> (parse_rule (PDict nested) = Inr rule \<longleftrightarrow>
             (\<exists>i v. rule = BeatMissionsRuleData i v \<and> map_of nested ''mission_ids'' = Some i
                \<and> map_of nested ''visual_reqs'' = Some v
                \<and> set (map fst nested) \<subseteq> {''mission_ids'', ''visual_reqs''}))"
  proof (intro impI conjI)
    assume "''sub_rules'' \<notin> set (map fst nested) \<and> ''amount'' \<notin> set (map fst nested)"
    then show p: "parse_rule (PDict nested) = BeatMissionsRuleData_new nested"
      by (simp add: parse_rule_PDict)
    show "parse_rule (PDict nested) = Inr rule \<longleftrightarrow>
             (\<exists>i v. rule = BeatMissionsRuleData i v \<and> map_of nested ''mission_ids'' = Some i
                \<and> map_of nested ''visual_reqs'' = Some v
                \<and> set (map fst nested) \<subseteq> {''mission_ids'', ''visual_reqs''})"
      unfolding p by (rule Beat_new_iff)
  qed
  have s: "''sub_rules'' \<in> set (map fst nested) \<longrightarrow>
        parse_rule (PDict nested) = parse_from_dict (PDict nested)"
    by (simp add: parse_rule_PDict)
  from parse_from_dict_iff [of kvs r] s c b e t parse_mixed_payload show ?thesis
    by (intro conjI)
qed

theorem parse_dispatch_witness:
  "parse_from_dict example_payload =
     Inr (SubRuleRuleData [BeatMissionsRuleData (PList [PInt 5]) (PList [PInt 5])] (PInt 1))
   \<and> ''sub_rules'' \<in> set (map fst [(''amount'', PInt 0), (''sub_rules'', PList [])])
   \<and> parse_rule (PDict [(''amount'', PInt 0), (''sub_rules'', PList [])])
       = Inr (SubRuleRuleData [] (PInt 0))
   \<and> ''sub_rules'' \<notin> set (map fst [(''mission_ids'', PList [PInt 5, PInt 6]), (''amount'', PInt 1),
                                      (''visual_reqs'', PList [PStr ''Chapter''])])
   \<and> ''amount'' \<in> set (map fst [(''mission_ids'', PList [PInt 5, PInt 6]), (''amount'', PInt 1),
                                   (''visual_reqs'', PList [PStr ''Chapter''])])
   \<and> parse_rule (PDict [(''mission_ids'', PList [PInt 5, PInt 6]), (''amount'', PInt 1),
                         (''visual_reqs'', PList [PStr ''Chapter''])])
       = Inr (CountMissionsRuleData (PList [PInt 5, PInt 6]) (PInt 1) (PList [PStr ''Chapter'']))
   \<and> ''sub_rules'' \<notin> set (map fst [(''mission_ids'', PList [PInt 5]), (''visual_reqs'', PList [PInt 5])])
   \<and> ''amount'' \<notin> set (map fst [(''mission_ids'', PList [PInt 5]), (''visual_reqs'', PList [PInt 5])])
   \<and> parse_rule (PDict [(''mission_ids'', PList [PInt 5]), (''visual_reqs'', PList [PInt 5])])
       = Inr (BeatMissionsRuleData (PList [PInt 5]) (PList [PInt 5]))"
proof -
  let ?sub = "[(''amount'', PInt 0), (''sub_rules'', PList [])]"
  let ?count = "[(''mission_ids'', PList [PInt 5, PInt 6]), (''amount'', PInt 1),
                 (''visual_reqs'', PList [PStr ''Chapter''])]"
  let ?leaf = "[(''mission_ids'', PList [PInt 5]), (''visual_reqs'', PList [PInt 5])]"
  let ?kvs = "[(''amount'', PInt 1), (''sub_rules'', PList [PDict ?leaf])]"
  let ?r = "SubRuleRuleData [BeatMissionsRuleData (PList [PInt 5]) (PList [PInt 5])] (PInt 1)"
  let ?c = "CountMissionsRuleData (PList [PInt 5, PInt 6]) (PInt 1) (PList [PStr ''Chapter''])"
  let ?b = "BeatMissionsRuleData (PList [PInt 5]) (PList [PInt 5])"
  have a: "''sub_rules'' \<in> set (map fst ?sub)" by simp
  have k: "''sub_rules'' \<notin> set (map fst ?count)" "''amount'' \<in> set (map fst ?count)" by simp_all
  have l: "''sub_rules'' \<notin> set (map fst ?leaf)" "''amount'' \<notin> set (map fst ?leaf)" by simp_all
  have e: "parse_from_dict example_payload = Inr ?r"
    using parse_dispatch [of ?kvs ?r ?leaf ?b] by blast
  have "parse_rule (PDict ?sub) = parse_from_dict (PDict ?sub)"
    using parse_dispatch [of ?kvs ?r ?sub ?b] a by blast
  moreover have "parse_from_dict (PDict ?sub) = Inr (SubRuleRuleData [] (PInt 0))"
    by (simp add: parse_from_dict.simps)
  ultimately have d: "parse_rule (PDict ?sub) = Inr (SubRuleRuleData [] (PInt 0))" by simp
  have "parse_rule (PDict ?count) = Inr ?c \<longleftrightarrow>
      (\<exists>i a v. ?c = CountMissionsRuleData i a v \<and> map_of ?count ''mission_ids'' = Some i
         \<and> map_of ?count ''amount'' = Some a \<and> map_of ?count ''visual_reqs'' = Some v
         \<and> set (map fst ?count) \<subseteq> {''mission_ids'', ''amount'', ''visual_reqs''})"
    using parse_dispatch [of ?kvs ?r ?count ?c] k by blast
  then have c: "parse_rule (PDict ?count) = Inr ?c" by simp
  have "parse_rule (PDict ?leaf) = Inr ?b \<longleftrightarrow>
      (\<exists>i v. ?b = BeatMissionsRuleData i v \<and> map_of ?leaf ''mission_ids'' = Some i
         \<and> map_of ?leaf ''visual_reqs'' = Some v
         \<and> set (map fst ?leaf) \<subseteq> {''mission_ids'', ''visual_reqs''})"
    using parse_dispatch [of ?kvs ?r ?leaf ?b] l by blast
  then have b: "parse_rule (PDict ?leaf) = Inr ?b" by simp
  from a k l e d c b show ?thesis by blast
qed

lemma collect_isl: "x \<in> set rs \<Longrightarrow> isl x \<Longrightarrow> isl (collect rs)"
proof (induction rs)
  case Nil then show ?case by simp
next
  case (Cons r rs)
  then show ?case by (cases r) (auto split: sum.splits)
qed

lemma map_of_None_iff: "(map_of kvs k = None) = (k \<notin> set (map fst kvs))"
  by (simp add: map_of_eq_None_iff)

lemma Beat_new_isl:
  "set (map fst kvs) \<noteq> {''mission_ids'', ''visual_reqs''} \<Longrightarrow> isl (BeatMissionsRuleData_new kvs)"
proof (cases "list_all (\<lambda>(field, v). field \<in> {''mission_ids'', ''visual_reqs''}) kvs")
  case False
  then show ?thesis
    by (auto simp: BeatMissionsRuleData_new_def split: option.splits)
next
  case True
  assume n: "set (map fst kvs) \<noteq> {''mission_ids'', ''visual_reqs''}"
  from True have "set (map fst kvs) \<subseteq> {''mission_ids'', ''visual_reqs''}"
    by (auto simp: list_all_iff)
  with n have "''mission_ids'' \<notin> set (map fst kvs) \<or> ''visual_reqs'' \<notin> set (map fst kvs)"
    by blast
  then have "map_of kvs ''mission_ids'' = None \<or> map_of kvs ''visual_reqs'' = None"
    by (simp only: map_of_None_iff)
  then show ?thesis
    by (auto simp: BeatMissionsRuleData_new_def split: option.splits)
qed

lemma Count_new_isl:
  "set (map fst kvs) \<noteq> {''mission_ids'', ''amount'', ''visual_reqs''} \<Longrightarrow>
   isl (CountMissionsRuleData_new kvs)"
proof (cases "list_all (\<lambda>(field, v). field \<in> {''mission_ids'', ''amount'', ''visual_reqs''}) kvs")
  case False
  then show ?thesis
    by (auto simp: CountMissionsRuleData_new_def split: option.splits)
next
  case True
  assume n: "set (map fst kvs) \<noteq> {''mission_ids'', ''amount'', ''visual_reqs''}"
  from True have "set (map fst kvs) \<subseteq> {''mission_ids'', ''amount'', ''visual_reqs''}"
    by (auto simp: list_all_iff)
  with n have "''mission_ids'' \<notin> set (map fst kvs) \<or> ''amount'' \<notin> set (map fst kvs)
      \<or> ''visual_reqs'' \<notin> set (map fst kvs)"
    by blast
  then have "map_of kvs ''mission_ids'' = None \<or> map_of kvs ''amount'' = None
      \<or> map_of kvs ''visual_reqs'' = None"
    by (simp only: map_of_None_iff)
  then show ?thesis
    by (auto simp: CountMissionsRuleData_new_def split: option.splits)
qed

lemma parse_rule_bad_leaf:
  assumes "''sub_rules'' \<notin> set (map fst leaf)" "\<not> leaf_fields_ok leaf"
  shows "isl (parse_rule (PDict leaf))"
proof (cases "''amount'' \<in> set (map fst leaf)")
  case True
  with assms show ?thesis
    by (simp add: parse_rule.simps leaf_fields_ok_def Count_new_isl)
next
  case False
  with assms show ?thesis
    by (simp add: parse_rule.simps leaf_fields_ok_def Beat_new_isl)
qed

lemma parse_from_dict_child_isl:
  assumes "map_of kvs ''sub_rules'' = Some (PList xs)" "x \<in> set xs" "isl (parse_rule x)"
  shows "isl (parse_from_dict (PDict kvs))"
proof -
  have "isl (collect (map parse_rule xs))"
    using assms(2,3) by (intro collect_isl [of "parse_rule x"]) auto
  then show ?thesis using assms(1)
    by (auto simp: parse_from_dict.simps split: sum.splits option.splits)
qed

lemma leaf_of_bad_isl:
  "leaf_of p leaf \<Longrightarrow> (\<And>kvs. leaf = PDict kvs \<Longrightarrow> \<not> leaf_fields_ok kvs) \<Longrightarrow> isl (parse_from_dict p)"
proof (induction rule: leaf_of.induct)
  case (here kvs xs leaf)
  then have "isl (parse_rule (PDict leaf))" by (intro parse_rule_bad_leaf) auto
  with here show ?case by (intro parse_from_dict_child_isl)
next
  case (below kvs xs nested leaf)
  then have "isl (parse_from_dict (PDict nested))" by simp
  with below.hyps(3) have "isl (parse_rule (PDict nested))" by (simp add: parse_rule.simps)
  with below.hyps(1,2) show ?case by (intro parse_from_dict_child_isl)
qed

text \<open>
  C8 (malformed payloads fail fast). \<open>parse_from_dict\<close> returns an error for every
  mapping without the key \<open>amount\<close> or without the key \<open>sub_rules\<close>, and for every
  payload with a leaf payload, at any depth, whose keys are not exactly the fields of
  the variant they select (a field is missing or a key is not a field). A result that
  is not an error is the whole tree: a \<open>SubRuleRuleData\<close> with one parsed child for
  each element of \<open>sub_rules\<close>.
\<close>

theorem malformed_payload_fails:
  "(map_of kvs ''amount'' = None \<or> map_of kvs ''sub_rules'' = None \<longrightarrow>
      isl (parse_from_dict (PDict kvs)))
   \<and> (leaf_of p (PDict leaf) \<and> \<not> leaf_fields_ok leaf \<longrightarrow> isl (parse_from_dict p))
   \<and> (parse_from_dict p = Inr r \<longrightarrow>
        (\<exists>rules rule_datas sub_rules amount.
           subscript p ''sub_rules'' = Inr rules \<and> iter rules = Inr rule_datas
           \<and> r = SubRuleRuleData sub_rules amount
           \<and> collect (map parse_rule rule_datas) = Inr sub_rules
           \<and> length sub_rules = length rule_datas))"
proof -
  have a: "isl (parse_from_dict (PDict kvs))"
    if "map_of kvs ''amount'' = None \<or> map_of kvs ''sub_rules'' = None"
    using that by (auto simp: parse_from_dict.simps split: sum.splits option.splits)
  have b: "isl (parse_from_dict p)" if "leaf_of p (PDict leaf)" "\<not> leaf_fields_ok leaf"
    using that by (intro leaf_of_bad_isl [of p "PDict leaf"]) auto
  have c: "\<exists>rules rule_datas sub_rules amount.
           subscript p ''sub_rules'' = Inr rules \<and> iter rules = Inr rule_datas
           \<and> r = SubRuleRuleData sub_rules amount
           \<and> collect (map parse_rule rule_datas) = Inr sub_rules
           \<and> length sub_rules = length rule_datas"
    if "parse_from_dict p = Inr r"
    using that collect_length
    by (fastforce simp: parse_from_dict.simps [of p] split: sum.splits)
  from a b c show ?thesis by blast
qed

theorem malformed_payload_fails_witness:
  "map_of [(''sub_rules'', PList [])] ''amount'' = None
   \<and> parse_from_dict payload_without_amount = Inl (KeyError (PStr ''amount''))
   \<and> leaf_of payload_with_bad_leaf (PDict [(''mission_ids'', PList [PInt 5])])
   \<and> \<not> leaf_fields_ok [(''mission_ids'', PList [PInt 5])]
   \<and> isl (parse_from_dict payload_with_bad_leaf)
   \<and> parse_from_dict payload_with_bad_leaf = Inl TypeError"
proof -
  have a: "map_of [(''sub_rules'', PList [])] ''amount'' = None" by simp
  have b: "leaf_of payload_with_bad_leaf (PDict [(''mission_ids'', PList [PInt 5])])"
    unfolding payload_with_bad_leaf_def
    by (rule leaf_of.here [where xs = "[PDict [(''amount'', PInt 0), (''sub_rules'', PList [])],
        PDict [(''mission_ids'', PList [PInt 5])]]"]) simp_all
  have c: "\<not> leaf_fields_ok [(''mission_ids'', PList [PInt 5])]"
    by (simp add: leaf_fields_ok_def) 
  have d: "isl (parse_from_dict payload_with_bad_leaf)"
    using malformed_payload_fails [of "[(''sub_rules'', PList [])]" payload_with_bad_leaf
        "[(''mission_ids'', PList [PInt 5])]"] b c
    by blast
  have e: "parse_from_dict payload_without_amount = Inl (KeyError (PStr ''amount''))"
    by (simp add: payload_without_amount_def parse_from_dict.simps)
  have f: "parse_from_dict payload_with_bad_leaf = Inl TypeError"
    by (simp add: payload_with_bad_leaf_def parse_from_dict.simps parse_rule.simps
        BeatMissionsRuleData_new_def)
  from a b c d e f show ?thesis by blast
qed

end
